theory Spec2Isabelle
  imports Main "HOL-Library.Word"
begin

unbundle bit_operations_syntax

section \<open>Data model of keys/parsers/key\_parser.go\<close>

type_synonym byte = "8 word"
type_synonym uint64 = "64 word"

text \<open>
  The key classification of the external cryptography library (its \<open>KeyType\<close>
  enumeration). The package under verification accepts the first three only.
\<close>

datatype KeyType = RSA | Ed25519 | Secp256k1 | ECDSA

datatype lib_error = LibError string

text \<open>
  \<open>crypto.PubKey\<close> is an interface; the package calls two of its methods,
  \<open>Type()\<close> and \<open>Raw()\<close>, and the latter may return an error. A public key is
  therefore the pair of what these two methods return.
\<close>

record PubKey =
  Type :: KeyType
  Raw :: "lib_error + byte list"

text \<open>\<open>type DIDKey struct { crypto.PubKey }\<close>\<close>

datatype DIDKey = DIDKey PubKey

fun PubKey_of :: "DIDKey \<Rightarrow> PubKey" where
  "PubKey_of (DIDKey pub) = pub"

datatype panic = PanicUnexpectedCryptoType | PanicIndexOutOfRange

datatype varint_error = ErrOverflow | ErrUnderflow | ErrNotMinimal

datatype mb_error =
    ErrZeroLengthMultibase
  | ErrUnsupportedEncoding
  | ErrB58ZeroLength
  | ErrB58HighBit
  | ErrB58InvalidDigit char
  | ErrPayload string

text \<open>What \<open>x509.ParsePKIXPublicKey\<close> hands back: an RSA key (modulus, exponent) or
  a key of another kind, named by its Go type.\<close>

datatype pkix_key = PKIX_RSA nat nat | PKIX_Other string

datatype VerifyKeyResult =
    RsaPublicKey nat nat
  | Ed25519PublicKey "byte list"
  | RawBytes "byte list"

text \<open>
  One constructor for every place where the package returns an error, in the order of the
  source: \<open>NewKeyDID\<close> (line 37), \<open>VerifyKey\<close> (lines 81, 87, 91, 101, 103) and
  \<open>Parse\<close> (lines 111, 118, 122, 127, 134 and 140, 147, 151, 156). \<open>GoPanic\<close> stands
  for a run-time panic inside a function that returns an error value.
\<close>

datatype error =
    ErrUnsupportedKeyType KeyType
  | ErrRaw lib_error
  | ErrX509 lib_error
  | ErrNotRSAKey string
  | ErrInvalidSecp256k1Length nat
  | ErrUnrecognizedPublicKeyType KeyType
  | ErrNotKeyType
  | ErrDecodingMultibase mb_error
  | ErrUnexpectedMultibase int
  | ErrVarint varint_error
  | ErrUnmarshal lib_error
  | ErrUnmarshalSecp256k1 lib_error
  | ErrUnrecognizedMulticodec byte
  | GoPanic panic

text \<open>
  Modelled from the spec: the external libraries are not part of the sources. Their parts
  that involve ASN.1 parsing, curve arithmetic or the multibase encodings other than
  base-58-BTC are parameters of the model.
  \<^item> \<open>mb_decode_other\<close>: Modelled from the spec: \<open>mb.Decode\<close> of go-multibase on a
    non-empty text whose selector is not \<open>z\<close>; the encoding it reports and the bytes.
  \<^item> \<open>rsa_unmarshal\<close>: Modelled from the spec: \<open>crypto.UnmarshalRsaPublicKey\<close>; for an
    accepted input, the \<open>Raw()\<close> bytes of the RSA key object it builds.
  \<^item> \<open>secp256k1_unmarshal\<close>: Modelled from the spec:
    \<open>crypto.UnmarshalSecp256k1PublicKey\<close>; for an accepted input, the \<open>Raw()\<close> bytes of
    the Secp256k1 key object it builds.
  \<^item> \<open>ParsePKIXPublicKey\<close>: Modelled from the spec: \<open>x509.ParsePKIXPublicKey\<close>.
\<close>

record ext =
  mb_decode_other :: "string \<Rightarrow> mb_error + (int \<times> byte list)"
  rsa_unmarshal :: "byte list \<Rightarrow> lib_error + byte list"
  secp256k1_unmarshal :: "byte list \<Rightarrow> lib_error + byte list"
  ParsePKIXPublicKey :: "byte list \<Rightarrow> lib_error + pkix_key"

subsection \<open>Constants (lines 15 to 24)\<close>

definition KeyPrefix :: string where
  "KeyPrefix = ''did:key''"

definition MulticodecKindRSAPubKey :: uint64 where
  "MulticodecKindRSAPubKey = 0x1205"

definition MulticodecKindEd25519PubKey :: uint64 where
  "MulticodecKindEd25519PubKey = 0xed"

definition MulticodecKindSecp256k1PubKey :: uint64 where
  "MulticodecKindSecp256k1PubKey = 0x1206"

section \<open>The varint package\<close>

text \<open>
  Modelled from the spec: go-varint is not part of the sources. The tag is written as an
  unsigned LEB128 varint, seven data bits per byte with a continuation bit; reading fails
  on a truncated buffer, on a non-minimal encoding and on more than nine bytes.
  \<open>Len64\<close> is \<open>bits.Len64\<close>, the number of bits needed to write a value.
\<close>

fun bit_length :: "nat \<Rightarrow> nat" where
  "bit_length n = (if n = 0 then 0 else Suc (bit_length (n div 2)))"

definition Len64 :: "uint64 \<Rightarrow> nat" where
  "Len64 x = bit_length (unat x)"

definition UvarintSize :: "uint64 \<Rightarrow> nat" where
  "UvarintSize num =
     (let bits = Len64 num; q = bits div 7; r = bits mod 7; size = q
      in if r > 0 \<or> size = 0 then size + 1 else size)"

text \<open>
  Modelled from the spec: \<open>PutUvarint(buf, x)\<close> of the varint package, which is not part
  of the sources. It writes the varint of \<open>x\<close> into an existing buffer, low seven bits
  first, and returns the number of bytes written; an index past the end of the buffer
  panics.
\<close>

function PutUvarint_loop :: "byte list \<Rightarrow> uint64 \<Rightarrow> nat \<Rightarrow> panic + (byte list \<times> nat)" where
  "PutUvarint_loop buf x i =
     (if x \<ge> 0x80 then
        (if i < length buf
         then PutUvarint_loop (buf[i := ucast x OR 0x80]) (drop_bit 7 x) (i + 1)
         else Inl PanicIndexOutOfRange)
      else
        (if i < length buf then Inr (buf[i := ucast x], i + 1)
         else Inl PanicIndexOutOfRange))"
  by pat_completeness auto
termination
proof (relation "measure (\<lambda>(buf, x, i). unat x)")
  show "wf (measure (\<lambda>(buf, x, i). unat x))" by simp
next
  fix buf :: "byte list" and x :: uint64 and i :: nat
  assume "0x80 \<le> x"
  then have "128 \<le> unat x" by (simp add: word_le_nat_alt)
  then have "unat x div 128 < unat x" by simp
  then show "((buf[i := ucast x OR 0x80], drop_bit 7 x, i + 1), buf, x, i)
      \<in> measure (\<lambda>(buf, x, i). unat x)"
    by (simp add: drop_bit_eq_div unat_div)
qed

definition PutUvarint :: "byte list \<Rightarrow> uint64 \<Rightarrow> panic + (byte list \<times> nat)" where
  "PutUvarint buf x = PutUvarint_loop buf x 0"

definition MaxLenUvarint63 :: nat where
  "MaxLenUvarint63 = 9"

text \<open>
  Modelled from the spec: \<open>FromUvarint(buf)\<close> of the varint package, which is not part
  of the sources. It reads one varint from the front of the buffer and returns the value
  and the number of bytes read; it fails when the buffer ends before the varint does
  (underflow), when the last byte is a zero that is not the only byte (not minimal) and
  when a ninth byte still has its continuation bit (overflow). The loop carries the value
  \<open>x\<close>, the shift \<open>s\<close> and the index \<open>i\<close>.
\<close>

fun FromUvarint_loop ::
  "byte list \<Rightarrow> uint64 \<Rightarrow> nat \<Rightarrow> nat \<Rightarrow> varint_error + (uint64 \<times> nat)" where
  "FromUvarint_loop [] x s i = Inl ErrUnderflow"
| "FromUvarint_loop (b # bs) x s i =
     (if (i = 8 \<and> b \<ge> 0x80) \<or> i \<ge> MaxLenUvarint63 then Inl ErrOverflow
      else if b < 0x80 then
        (if b = 0 \<and> s > 0 then Inl ErrNotMinimal
         else Inr (x OR push_bit s (ucast b), i + 1))
      else FromUvarint_loop bs (x OR push_bit s (ucast (b AND 0x7f))) (s + 7) (i + 1))"

definition FromUvarint :: "byte list \<Rightarrow> varint_error + (uint64 \<times> nat)" where
  "FromUvarint buf = FromUvarint_loop buf 0 0 0"

section \<open>Base 58 and the multibase layer\<close>

text \<open>
  Modelled from the spec: the base-58 package and go-multibase are not part of the
  sources. The text layer is base 58 with the Bitcoin alphabet, prefixed with the
  one-character selector \<open>z\<close>. Every leading zero byte is written as the first letter of
  the alphabet; the remaining bytes are read as one big-endian number and written in base
  58. Decoding rejects the empty text, a character above 127 and a character outside the
  alphabet, in the order in which the characters are met.
\<close>

definition BTCAlphabet :: string where
  "BTCAlphabet = ''123456789ABCDEFGHJKLMNPQRSTUVWXYZabcdefghijkmnopqrstuvwxyz''"

fun index_of :: "'a \<Rightarrow> 'a list \<Rightarrow> nat option" where
  "index_of c [] = None"
| "index_of c (x # xs) =
     (if c = x then Some 0 else case index_of c xs of None \<Rightarrow> None | Some k \<Rightarrow> Some (Suc k))"

definition bytes_value :: "byte list \<Rightarrow> nat" where
  "bytes_value bin = foldl (\<lambda>v b. v * 256 + unat b) 0 bin"

fun digits58 :: "nat \<Rightarrow> nat list \<Rightarrow> nat list" where
  "digits58 n acc = (if n = 0 then acc else digits58 (n div 58) (n mod 58 # acc))"

fun bytes_of :: "nat \<Rightarrow> byte list \<Rightarrow> byte list" where
  "bytes_of n acc = (if n = 0 then acc else bytes_of (n div 256) (of_nat (n mod 256) # acc))"

definition EncodeAlphabet :: "byte list \<Rightarrow> string" where
  "EncodeAlphabet bin =
     replicate (length (takeWhile (\<lambda>b. b = 0) bin)) (BTCAlphabet ! 0)
     @ map (\<lambda>d. BTCAlphabet ! d) (digits58 (bytes_value bin) [])"

fun b58_value :: "string \<Rightarrow> nat \<Rightarrow> mb_error + nat" where
  "b58_value [] v = Inr v"
| "b58_value (r # rs) v =
     (if of_char r > (127 :: nat) then Inl ErrB58HighBit
      else case index_of r BTCAlphabet of
             None \<Rightarrow> Inl (ErrB58InvalidDigit r)
           | Some d \<Rightarrow> b58_value rs (v * 58 + d))"

definition DecodeAlphabet :: "string \<Rightarrow> mb_error + byte list" where
  "DecodeAlphabet str =
     (if str = [] then Inl ErrB58ZeroLength
      else case b58_value str 0 of
             Inl err \<Rightarrow> Inl err
           | Inr v \<Rightarrow>
               Inr (replicate (length (takeWhile (\<lambda>c. c = BTCAlphabet ! 0) str)) 0
                    @ bytes_of v []))"

text \<open>Modelled from the spec: an encoding of the multibase package is named by its
  selector, a code point; \<open>Base58BTC\<close> is the letter \<open>z\<close>.\<close>

definition Base58BTC :: int where
  "Base58BTC = 122"

text \<open>Modelled from the spec: \<open>mb.Encode(mb.Base58BTC, data)\<close> of the multibase
  package, which is not part of the sources: the selector, then the base-58 text.\<close>

definition mb_Encode_Base58BTC :: "byte list \<Rightarrow> mb_error + string" where
  "mb_Encode_Base58BTC data = Inr (CHR ''z'' # EncodeAlphabet data)"

text \<open>Modelled from the spec: \<open>mb.Decode(data)\<close> of the multibase package, which is
  not part of the sources: the empty text is an error; the first character selects the
  encoding; for \<open>z\<close> the rest is decoded as base 58 and the encoding reported is
  \<open>Base58BTC\<close>; any other text is left to the parameter \<open>mb_decode_other\<close>.\<close>

definition mb_Decode :: "ext \<Rightarrow> string \<Rightarrow> mb_error + (int \<times> byte list)" where
  "mb_Decode x data =
     (case data of
        [] \<Rightarrow> Inl ErrZeroLengthMultibase
      | r # rest \<Rightarrow>
          if r = CHR ''z'' then
            (case DecodeAlphabet rest of
               Inl err \<Rightarrow> Inl err
             | Inr bytes \<Rightarrow> Inr (Base58BTC, bytes))
          else mb_decode_other x data)"

section \<open>Strings and slices\<close>

definition HasPrefix :: "string \<Rightarrow> string \<Rightarrow> bool" where
  "HasPrefix s p = (take (length p) s = p)"

definition TrimPrefix :: "string \<Rightarrow> string \<Rightarrow> string" where
  "TrimPrefix s p = (if HasPrefix s p then drop (length p) s else s)"

text \<open>\<open>copy(dst[n:], src)\<close> on a buffer \<open>dst\<close>: slicing past the end panics, and
  \<open>copy\<close> moves as many bytes as fit.\<close>

definition copy_from :: "byte list \<Rightarrow> nat \<Rightarrow> byte list \<Rightarrow> panic + byte list" where
  "copy_from dst n src =
     (if n > length dst then Inl PanicIndexOutOfRange
      else let k = min (length dst - n) (length src)
           in Inr (take n dst @ take k src @ drop (n + k) dst))"

section \<open>The package: NewKeyDID, MulticodecType, String, VerifyKey, Parse\<close>

text \<open>\<open>NewKeyDID\<close> (lines 32 to 39): a switch on \<open>pub.Type()\<close>.\<close>

definition NewKeyDID :: "PubKey \<Rightarrow> error + DIDKey" where
  "NewKeyDID pub =
     (case Type pub of
        Ed25519 \<Rightarrow> Inr (DIDKey pub)
      | RSA \<Rightarrow> Inr (DIDKey pub)
      | Secp256k1 \<Rightarrow> Inr (DIDKey pub)
      | _ \<Rightarrow> Inl (ErrUnsupportedKeyType (Type pub)))"

text \<open>\<open>MulticodecType\<close> (lines 42 to 53); the default case panics.\<close>

definition MulticodecType :: "DIDKey \<Rightarrow> panic + uint64" where
  "MulticodecType did =
     (case Type (PubKey_of did) of
        RSA \<Rightarrow> Inr MulticodecKindRSAPubKey
      | Ed25519 \<Rightarrow> Inr MulticodecKindEd25519PubKey
      | Secp256k1 \<Rightarrow> Inr MulticodecKindSecp256k1PubKey
      | _ \<Rightarrow> Inl PanicUnexpectedCryptoType)"

text \<open>
  \<open>String\<close> (lines 56 to 74). \<open>String_of_encoded\<close> is its end, lines 69 to 73: what
  is returned for each outcome of the multibase encoder.
\<close>

definition String_of_encoded :: "mb_error + string \<Rightarrow> string" where
  "String_of_encoded r =
     (case r of
        Inl err \<Rightarrow> []
      | Inr b58BKeyStr \<Rightarrow> KeyPrefix @ '':'' @ b58BKeyStr)"

definition String :: "DIDKey \<Rightarrow> panic + string" where
  "String did =
     (case Raw (PubKey_of did) of
        Inl err \<Rightarrow> Inr []
      | Inr raw \<Rightarrow>
          (case MulticodecType did of
             Inl p \<Rightarrow> Inl p
           | Inr t \<Rightarrow>
               (let size = UvarintSize t;
                    data = replicate (size + length raw) 0
                in case PutUvarint data t of
                     Inl p \<Rightarrow> Inl p
                   | Inr (data1, n) \<Rightarrow>
                       (case copy_from data1 n raw of
                          Inl p \<Rightarrow> Inl p
                        | Inr data2 \<Rightarrow>
                            Inr (String_of_encoded (mb_Encode_Base58BTC data2))))))"

text \<open>\<open>VerifyKey\<close> (lines 78 to 105).\<close>

definition VerifyKey :: "ext \<Rightarrow> DIDKey \<Rightarrow> error + VerifyKeyResult" where
  "VerifyKey x did =
     (case Raw (PubKey_of did) of
        Inl err \<Rightarrow> Inl (ErrRaw err)
      | Inr rawPubBytes \<Rightarrow>
          (case Type (PubKey_of did) of
             RSA \<Rightarrow>
               (case ParsePKIXPublicKey x rawPubBytes of
                  Inl err \<Rightarrow> Inl (ErrX509 err)
                | Inr verifyKeyiface \<Rightarrow>
                    (case verifyKeyiface of
                       PKIX_RSA n e \<Rightarrow> Inr (RsaPublicKey n e)
                     | PKIX_Other ty \<Rightarrow> Inl (ErrNotRSAKey ty)))
           | Ed25519 \<Rightarrow> Inr (Ed25519PublicKey rawPubBytes)
           | Secp256k1 \<Rightarrow>
               if length rawPubBytes = 65 \<or> length rawPubBytes = 33
               then Inr (RawBytes rawPubBytes)
               else Inl (ErrInvalidSecp256k1Length (length rawPubBytes))
           | _ \<Rightarrow> Inl (ErrUnrecognizedPublicKeyType (Type (PubKey_of did)))))"

text \<open>
  Modelled from the spec: the three unmarshal functions of the cryptography library that
  \<open>Parse\<close> calls, which are not part of the sources. Each returns a key object of its
  own algorithm. An Ed25519 key has exactly the native public-key length of the curve, 32
  bytes, and its raw bytes are the bytes given; what the other two accept, and the raw
  bytes of the keys they build, are the parameters \<open>rsa_unmarshal\<close> and
  \<open>secp256k1_unmarshal\<close>.
\<close>

definition UnmarshalRsaPublicKey :: "ext \<Rightarrow> byte list \<Rightarrow> lib_error + PubKey" where
  "UnmarshalRsaPublicKey x data =
     (case rsa_unmarshal x data of
        Inl err \<Rightarrow> Inl err
      | Inr raw \<Rightarrow> Inr \<lparr>Type = RSA, Raw = Inr raw\<rparr>)"

definition UnmarshalEd25519PublicKey :: "byte list \<Rightarrow> lib_error + PubKey" where
  "UnmarshalEd25519PublicKey data =
     (if length data \<noteq> 32
      then Inl (LibError ''expect ed25519 public key data size to be 32'')
      else Inr \<lparr>Type = Ed25519, Raw = Inr data\<rparr>)"

definition UnmarshalSecp256k1PublicKey :: "ext \<Rightarrow> byte list \<Rightarrow> lib_error + PubKey" where
  "UnmarshalSecp256k1PublicKey x data =
     (case secp256k1_unmarshal x data of
        Inl err \<Rightarrow> Inl err
      | Inr raw \<Rightarrow> Inr \<lparr>Type = Secp256k1, Raw = Inr raw\<rparr>)"

text \<open>
  \<open>Parse\<close> (lines 108 to 157), in three parts: the check and the removal of the prefix
  (lines 110 to 114, \<open>Parse\<close>), the multibase and varint stages (lines 116 to 128,
  \<open>Parse_multibase\<close>), and the switch on the key type with the return that follows it
  (lines 130 to 156, \<open>Parse_switch\<close>); \<open>data[0]\<close> on an empty slice panics.
\<close>

definition Parse_switch :: "ext \<Rightarrow> uint64 \<Rightarrow> byte list \<Rightarrow> nat \<Rightarrow> error + DIDKey" where
  "Parse_switch x keyType data n =
     (if keyType = MulticodecKindRSAPubKey then
        (case UnmarshalRsaPublicKey x (drop n data) of
           Inl err \<Rightarrow> Inl (ErrUnmarshal err)
         | Inr pub \<Rightarrow> Inr (DIDKey pub))
      else if keyType = MulticodecKindEd25519PubKey then
        (case UnmarshalEd25519PublicKey (drop n data) of
           Inl err \<Rightarrow> Inl (ErrUnmarshal err)
         | Inr pub \<Rightarrow> Inr (DIDKey pub))
      else if keyType = MulticodecKindSecp256k1PubKey then
        (let keyData = drop n data
         in if length keyData \<noteq> 33 \<and> length keyData \<noteq> 65
            then Inl (ErrInvalidSecp256k1Length (length keyData))
            else case UnmarshalSecp256k1PublicKey x keyData of
                   Inl err \<Rightarrow> Inl (ErrUnmarshalSecp256k1 err)
                 | Inr pub \<Rightarrow> Inr (DIDKey pub))
      else
        (case data of
           [] \<Rightarrow> Inl (GoPanic PanicIndexOutOfRange)
         | b # _ \<Rightarrow> Inl (ErrUnrecognizedMulticodec b)))"

definition Parse_multibase :: "ext \<Rightarrow> string \<Rightarrow> error + DIDKey" where
  "Parse_multibase x keystr =
     (case mb_Decode x keystr of
        Inl err \<Rightarrow> Inl (ErrDecodingMultibase err)
      | Inr (enc, data) \<Rightarrow>
          if enc \<noteq> Base58BTC then Inl (ErrUnexpectedMultibase enc)
          else
            (case FromUvarint data of
               Inl err \<Rightarrow> Inl (ErrVarint err)
             | Inr (keyType, n) \<Rightarrow> Parse_switch x keyType data n))"

definition Parse :: "ext \<Rightarrow> string \<Rightarrow> error + DIDKey" where
  "Parse x keystr =
     (if \<not> HasPrefix keystr KeyPrefix then Inl ErrNotKeyType
      else Parse_multibase x (TrimPrefix keystr (KeyPrefix @ '':'')))"

text \<open>
  \<open>Parse(id.String())\<close>, the composition that the round-trip property is about; a
  panic of \<open>String\<close> ends it.
\<close>

definition Parse_String :: "ext \<Rightarrow> DIDKey \<Rightarrow> error + DIDKey" where
  "Parse_String x did =
     (case String did of
        Inl p \<Rightarrow> Inl (GoPanic p)
      | Inr s \<Rightarrow> Parse x s)"

section \<open>The registry and the shape rules of the specification\<close>

text \<open>
  Modelled from the spec: \<open>algorithmOf\<close> of the algorithm registry (section 4.1), the
  partial inverse of the tag table, defined on the three known tags only.
\<close>

definition algorithmOf :: "uint64 \<Rightarrow> KeyType option" where
  "algorithmOf t =
     (if t = 0xed then Some Ed25519
      else if t = 0x1205 then Some RSA
      else if t = 0x1206 then Some Secp256k1
      else None)"

text \<open>
  Modelled from the spec: the shape constraint of the raw key bytes of each algorithm
  (section 3). Bytes are taken to be a DER-encoded SubjectPublicKeyInfo of an RSA key
  when the X.509 parser of the library reads them as an RSA key.
\<close>

definition shape_rule :: "ext \<Rightarrow> KeyType \<Rightarrow> byte list \<Rightarrow> bool" where
  "shape_rule x a raw =
     (case a of
        Ed25519 \<Rightarrow> length raw = 32
      | RSA \<Rightarrow>
          (case ParsePKIXPublicKey x raw of
             Inl err \<Rightarrow> False
           | Inr k \<Rightarrow> (case k of PKIX_RSA n e \<Rightarrow> True | PKIX_Other ty \<Rightarrow> False))
      | Secp256k1 \<Rightarrow> length raw = 33 \<or> length raw = 65
      | ECDSA \<Rightarrow> False)"

section \<open>An instance of the external interface\<close>

text \<open>
  A small instance of the parameters, for evaluating the model on concrete inputs. Its
  multibase decoder knows the identity encoding (selector 0) and base 16 (selectors
  \<open>f\<close> and \<open>F\<close>, decoded as \<open>hex.DecodeString\<close> does) and reports every other selector
  as unsupported. Its Secp256k1 parser checks the length and the format byte only (2 or 3
  before 32 bytes, 4 before 64 bytes) and returns the compressed form, as the library's
  \<open>Raw()\<close> does; it does no curve arithmetic. Its two X.509 parsers accept nothing.
\<close>

definition fromHexChar :: "char \<Rightarrow> nat option" where
  "fromHexChar c =
     (case index_of c ''0123456789abcdef'' of
        Some k \<Rightarrow> Some k
      | None \<Rightarrow> index_of c ''0123456789ABCDEF'')"

fun hex_DecodeString :: "string \<Rightarrow> mb_error + byte list" where
  "hex_DecodeString [] = Inr []"
| "hex_DecodeString [p] =
     (case fromHexChar p of
        None \<Rightarrow> Inl (ErrPayload ''encoding/hex: invalid byte'')
      | Some _ \<Rightarrow> Inl (ErrPayload ''encoding/hex: odd length hex string''))"
| "hex_DecodeString (p # q # rest) =
     (case fromHexChar p of
        None \<Rightarrow> Inl (ErrPayload ''encoding/hex: invalid byte'')
      | Some a \<Rightarrow>
          (case fromHexChar q of
             None \<Rightarrow> Inl (ErrPayload ''encoding/hex: invalid byte'')
           | Some b \<Rightarrow>
               (case hex_DecodeString rest of
                  Inl err \<Rightarrow> Inl err
                | Inr bytes \<Rightarrow> Inr (of_nat (a * 16 + b) # bytes))))"

definition sample_mb_decode_other :: "string \<Rightarrow> mb_error + (int \<times> byte list)" where
  "sample_mb_decode_other data =
     (case data of
        [] \<Rightarrow> Inl ErrZeroLengthMultibase
      | r # rest \<Rightarrow>
          if of_char r = (0 :: nat) then Inr (0, map of_char rest)
          else if r = CHR ''f'' \<or> r = CHR ''F'' then
            (case hex_DecodeString rest of
               Inl err \<Rightarrow> Inl err
             | Inr bytes \<Rightarrow> Inr (of_char r, bytes))
          else Inl ErrUnsupportedEncoding)"

definition sample_secp256k1_unmarshal :: "byte list \<Rightarrow> lib_error + byte list" where
  "sample_secp256k1_unmarshal data =
     (case data of
        [] \<Rightarrow> Inl (LibError ''malformed public key: invalid length: 0'')
      | format # rest \<Rightarrow>
          if length data = 33 then
            (if format = 2 \<or> format = 3 then Inr data
             else Inl (LibError ''invalid public key: unsupported format''))
          else if length data = 65 then
            (if format = 4
             then Inr ((if odd (unat (last rest)) then 3 else 2) # take 32 rest)
             else Inl (LibError ''invalid public key: unsupported format''))
          else Inl (LibError ''malformed public key: invalid length''))"

definition sample_ext :: ext where
  "sample_ext =
     \<lparr>mb_decode_other = sample_mb_decode_other,
      rsa_unmarshal = (\<lambda>data. Inl (LibError ''x509: malformed public key'')),
      secp256k1_unmarshal = sample_secp256k1_unmarshal,
      ParsePKIXPublicKey = (\<lambda>data. Inl (LibError ''x509: malformed public key''))\<rparr>"

section \<open>Auxiliary notions for the proofs\<close>

text \<open>The number that a list of base-58 digits denotes, most significant digit first.\<close>

definition digits_value :: "nat \<Rightarrow> nat list \<Rightarrow> nat" where
  "digits_value v ds = foldl (\<lambda>v d. v * 58 + d) v ds"

text \<open>
  The library's unmarshal function for an algorithm accepts the bytes \<open>raw\<close> and the
  key object it builds has the same bytes as its \<open>Raw()\<close>.
\<close>

definition unmarshals_to_itself :: "ext \<Rightarrow> KeyType \<Rightarrow> byte list \<Rightarrow> bool" where
  "unmarshals_to_itself x a raw =
     (case a of
        Ed25519 \<Rightarrow> UnmarshalEd25519PublicKey raw = Inr \<lparr>Type = Ed25519, Raw = Inr raw\<rparr>
      | RSA \<Rightarrow> UnmarshalRsaPublicKey x raw = Inr \<lparr>Type = RSA, Raw = Inr raw\<rparr>
      | Secp256k1 \<Rightarrow> UnmarshalSecp256k1PublicKey x raw = Inr \<lparr>Type = Secp256k1, Raw = Inr raw\<rparr>
      | ECDSA \<Rightarrow> False)"

text \<open>
  The generator of the secp256k1 curve in the uncompressed form (the byte 4, then the two
  coordinates) and in the compressed form (the byte 2, its second coordinate being even,
  then the first coordinate).
\<close>

definition secp256k1_G_uncompressed :: "byte list" where
  "secp256k1_G_uncompressed =
     [0x04, 0x79, 0xbe, 0x66, 0x7e, 0xf9, 0xdc, 0xbb, 0xac, 0x55, 0xa0,
      0x62, 0x95, 0xce, 0x87, 0x0b, 0x07, 0x02, 0x9b, 0xfc, 0xdb, 0x2d,
      0xce, 0x28, 0xd9, 0x59, 0xf2, 0x81, 0x5b, 0x16, 0xf8, 0x17, 0x98,
      0x48, 0x3a, 0xda, 0x77, 0x26, 0xa3, 0xc4, 0x65, 0x5d, 0xa4, 0xfb,
      0xfc, 0x0e, 0x11, 0x08, 0xa8, 0xfd, 0x17, 0xb4, 0x48, 0xa6, 0x85,
      0x54, 0x19, 0x9c, 0x47, 0xd0, 0x8f, 0xfb, 0x10, 0xd4, 0xb8]"

definition secp256k1_G_compressed :: "byte list" where
  "secp256k1_G_compressed =
     [0x02, 0x79, 0xbe, 0x66, 0x7e, 0xf9, 0xdc, 0xbb, 0xac, 0x55, 0xa0,
      0x62, 0x95, 0xce, 0x87, 0x0b, 0x07, 0x02, 0x9b, 0xfc, 0xdb, 0x2d,
      0xce, 0x28, 0xd9, 0x59, 0xf2, 0x81, 0x5b, 0x16, 0xf8, 0x17, 0x98]"

text \<open>The recursion equations of the two digit loops are unfolded by hand.\<close>

declare digits58.simps [simp del] bytes_of.simps [simp del]

section \<open>Varints of the three tags\<close>

lemma UvarintSize_Ed25519: "UvarintSize MulticodecKindEd25519PubKey = 2"
  by (simp add: UvarintSize_def Len64_def MulticodecKindEd25519PubKey_def Let_def)

lemma UvarintSize_RSA: "UvarintSize MulticodecKindRSAPubKey = 2"
  by (simp add: UvarintSize_def Len64_def MulticodecKindRSAPubKey_def Let_def)

lemma UvarintSize_Secp256k1: "UvarintSize MulticodecKindSecp256k1PubKey = 2"
  by (simp add: UvarintSize_def Len64_def MulticodecKindSecp256k1PubKey_def Let_def)

lemma PutUvarint_Ed25519:
  "PutUvarint (a # b # buf) MulticodecKindEd25519PubKey = Inr (0xed # 0x01 # buf, 2)"
  by (simp add: PutUvarint_def MulticodecKindEd25519PubKey_def word_le_nat_alt)

lemma PutUvarint_RSA:
  "PutUvarint (a # b # buf) MulticodecKindRSAPubKey = Inr (0x85 # 0x24 # buf, 2)"
  by (simp add: PutUvarint_def MulticodecKindRSAPubKey_def)

lemma PutUvarint_Secp256k1:
  "PutUvarint (a # b # buf) MulticodecKindSecp256k1PubKey = Inr (0x86 # 0x24 # buf, 2)"
  by (simp add: PutUvarint_def MulticodecKindSecp256k1PubKey_def)

lemma FromUvarint_Ed25519:
  "FromUvarint (0xed # 0x01 # raw) = Inr (MulticodecKindEd25519PubKey, 2)"
  by (simp add: FromUvarint_def MaxLenUvarint63_def MulticodecKindEd25519PubKey_def)

lemma FromUvarint_RSA:
  "FromUvarint (0x85 # 0x24 # raw) = Inr (MulticodecKindRSAPubKey, 2)"
  by (simp add: FromUvarint_def MaxLenUvarint63_def MulticodecKindRSAPubKey_def)

lemma FromUvarint_Secp256k1:
  "FromUvarint (0x86 # 0x24 # raw) = Inr (MulticodecKindSecp256k1PubKey, 2)"
  by (simp add: FromUvarint_def MaxLenUvarint63_def MulticodecKindSecp256k1PubKey_def)

section \<open>Base 58: decoding inverts encoding\<close>

lemma digits58_0 [simp]: "digits58 0 acc = acc"
  by (simp add: digits58.simps)

lemma digits58_pos: "n \<noteq> 0 \<Longrightarrow> digits58 n acc = digits58 (n div 58) (n mod 58 # acc)"
  by (subst digits58.simps) simp

lemma bytes_of_0 [simp]: "bytes_of 0 acc = acc"
  by (simp add: bytes_of.simps)

lemma bytes_of_pos: "n \<noteq> 0 \<Longrightarrow> bytes_of n acc = bytes_of (n div 256) (of_nat (n mod 256) # acc)"
  by (subst bytes_of.simps) simp

lemma digits_value_simps [simp]:
  "digits_value v [] = v"
  "digits_value v (d # ds) = digits_value (v * 58 + d) ds"
  by (simp_all add: digits_value_def)

lemma digits_value_shift: "digits_value v ds = v * 58 ^ length ds + digits_value 0 ds"
proof (induction ds arbitrary: v)
  case Nil
  show ?case by simp
next
  case (Cons d ds)
  have "digits_value v (d # ds) = (v * 58 + d) * 58 ^ length ds + digits_value 0 ds"
    using Cons.IH [of "v * 58 + d"] by simp
  moreover have "digits_value 0 (d # ds) = d * 58 ^ length ds + digits_value 0 ds"
    using Cons.IH [of d] by simp
  ultimately show ?case by (simp add: algebra_simps)
qed

lemma digits58_value: "digits_value 0 (digits58 n acc) = n * 58 ^ length acc + digits_value 0 acc"
proof (induction n acc rule: digits58.induct)
  case (1 n acc)
  show ?case
  proof (cases "n = 0")
    case True
    then show ?thesis by simp
  next
    case False
    have e: "(n div 58) * 58 ^ Suc (length acc) + (n mod 58) * 58 ^ length acc = n * 58 ^ length acc"
    proof -
      have "(n div 58) * 58 ^ Suc (length acc) + (n mod 58) * 58 ^ length acc
          = (n div 58 * 58) * 58 ^ length acc + (n mod 58) * 58 ^ length acc"
        by (simp add: mult.assoc)
      also have "\<dots> = (n div 58 * 58 + n mod 58) * 58 ^ length acc"
        by (rule add_mult_distrib [symmetric])
      also have "n div 58 * 58 + n mod 58 = n" by simp
      finally show ?thesis .
    qed
    have "digits_value 0 (digits58 n acc) = digits_value 0 (digits58 (n div 58) (n mod 58 # acc))"
      by (simp only: digits58_pos [OF False, of acc])
    also have "\<dots> = (n div 58) * 58 ^ length (n mod 58 # acc) + digits_value 0 (n mod 58 # acc)"
      by (rule "1.IH" [OF False])
    also have "\<dots> = ((n div 58) * 58 ^ Suc (length acc) + (n mod 58) * 58 ^ length acc)
        + digits_value 0 acc"
      by (simp add: digits_value_shift [of "n mod 58" acc])
    also have "\<dots> = n * 58 ^ length acc + digits_value 0 acc"
      by (simp only: e)
    finally show ?thesis .
  qed
qed

lemma digits58_bound: "\<forall>d \<in> set acc. d < 58 \<Longrightarrow> \<forall>d \<in> set (digits58 n acc). d < 58"
proof (induction n acc rule: digits58.induct)
  case (1 n acc)
  show ?case
  proof (cases "n = 0")
    case True
    with "1.prems" show ?thesis by simp
  next
    case False
    have "\<forall>d \<in> set (n mod 58 # acc). d < 58" using "1.prems" by simp
    from "1.IH" [OF False this] show ?thesis by (simp only: digits58_pos [OF False, of acc])
  qed
qed

lemma digits58_hd: "n \<noteq> 0 \<Longrightarrow> \<exists>d ds. digits58 n acc = d # ds \<and> d \<noteq> 0"
proof (induction n acc rule: digits58.induct)
  case (1 n acc)
  note step = digits58_pos [OF "1.prems", of acc]
  show ?case
  proof (cases "n div 58 = 0")
    case True
    then have "digits58 n acc = n mod 58 # acc"
      using step by simp
    moreover have "n mod 58 \<noteq> 0" using True "1.prems" by (simp add: div_eq_0_iff)
    ultimately show ?thesis by simp
  next
    case False
    from "1.IH" [OF "1.prems" False] show ?thesis
      by (simp only: step)
  qed
qed

lemma bytes_value_snoc: "bytes_value (bs @ [b]) = bytes_value bs * 256 + unat b"
  by (simp add: bytes_value_def)

lemma bytes_value_pos: "bs \<noteq> [] \<Longrightarrow> hd bs \<noteq> 0 \<Longrightarrow> 0 < bytes_value bs"
proof (induction bs rule: rev_induct)
  case Nil
  then show ?case by simp
next
  case (snoc b bs)
  show ?case
  proof (cases "bs = []")
    case True
    with snoc.prems have "b \<noteq> 0" by simp
    then have "0 < unat b" by (simp add: unat_gt_0)
    then show ?thesis by (simp add: bytes_value_snoc)
  next
    case False
    with snoc.prems have "hd bs \<noteq> 0" by simp
    from snoc.IH [OF False this] show ?thesis by (simp add: bytes_value_snoc)
  qed
qed

lemma bytes_value_zeros: "bytes_value (replicate z 0 @ bs) = bytes_value bs"
proof -
  have "foldl (\<lambda>v b. v * 256 + unat b) 0 (replicate z (0 :: byte)) = 0"
    by (induction z) simp_all
  then show ?thesis by (simp add: bytes_value_def)
qed

lemma bytes_of_bytes_value:
  "bs = [] \<or> hd bs \<noteq> 0 \<Longrightarrow> bytes_of (bytes_value bs) acc = bs @ acc"
proof (induction bs arbitrary: acc rule: rev_induct)
  case Nil
  show ?case by (simp add: bytes_value_def)
next
  case (snoc b bs)
  let ?n = "bytes_value (bs @ [b])"
  have n: "?n = bytes_value bs * 256 + unat b" by (rule bytes_value_snoc)
  have b: "unat b < 256" using unsigned_less [of b, where ?'a = nat] by simp
  have "hd (bs @ [b]) \<noteq> 0" using snoc.prems by simp
  then have "0 < ?n" by (rule bytes_value_pos [rotated]) simp
  then have pos: "?n \<noteq> 0" by simp
  have d: "?n div 256 = bytes_value bs" using n b by simp
  have "?n mod 256 = unat b" using n b by simp
  then have "(of_nat (?n mod 256) :: byte) = of_nat (unat b)" by (simp only:)
  then have m: "(of_nat (?n mod 256) :: byte) = b" by simp
  have hd: "bs = [] \<or> hd bs \<noteq> 0" using snoc.prems by (cases bs) auto
  have "bytes_of ?n acc = bytes_of (bytes_value bs) (b # acc)"
    using bytes_of_pos [OF pos, of acc] d m by simp
  also have "\<dots> = bs @ (b # acc)" by (rule snoc.IH [OF hd])
  finally show ?case by simp
qed

lemma BTCAlphabet_table:
  "\<forall>d \<in> set [0..<58]. index_of (BTCAlphabet ! d) BTCAlphabet = Some d
      \<and> \<not> of_char (BTCAlphabet ! d) > (127 :: nat)"
  by code_simp

lemma BTCAlphabet_index: "d < 58 \<Longrightarrow> index_of (BTCAlphabet ! d) BTCAlphabet = Some d"
  using BTCAlphabet_table by simp

lemma BTCAlphabet_ascii: "d < 58 \<Longrightarrow> \<not> of_char (BTCAlphabet ! d) > (127 :: nat)"
  using BTCAlphabet_table by simp

lemma BTCAlphabet_zero: "d < 58 \<Longrightarrow> BTCAlphabet ! d = BTCAlphabet ! 0 \<longleftrightarrow> d = 0"
proof
  assume d: "d < 58" and eq: "BTCAlphabet ! d = BTCAlphabet ! 0"
  have "index_of (BTCAlphabet ! d) BTCAlphabet = Some d" by (rule BTCAlphabet_index [OF d])
  moreover have "index_of (BTCAlphabet ! 0) BTCAlphabet = Some 0" by (rule BTCAlphabet_index) simp
  ultimately show "d = 0" using eq by simp
qed simp

lemma b58_value_digits:
  "\<forall>d \<in> set ds. d < 58 \<Longrightarrow>
   b58_value (map (\<lambda>d. BTCAlphabet ! d) ds) v = Inr (digits_value v ds)"
proof (induction ds arbitrary: v)
  case Nil
  show ?case by simp
next
  case (Cons d ds)
  then have d: "d < 58" by simp
  show ?case using Cons BTCAlphabet_index [OF d] BTCAlphabet_ascii [OF d] by simp
qed

lemma takeWhile_zero: "takeWhile (\<lambda>b. b = c) xs = replicate (length (takeWhile (\<lambda>b. b = c) xs)) c"
  by (induction xs) simp_all

lemma digits_value_zeros: "digits_value 0 (replicate z 0 @ ds) = digits_value 0 ds"
  by (induction z) simp_all

lemma takeWhile_replicate_append:
  "ys = [] \<or> hd ys \<noteq> c \<Longrightarrow> takeWhile (\<lambda>b. b = c) (replicate z c @ ys) = replicate z c"
proof -
  assume "ys = [] \<or> hd ys \<noteq> c"
  then have "takeWhile (\<lambda>b. b = c) ys = []" by (cases ys) auto
  then show ?thesis by (induction z) simp_all
qed

lemma DecodeAlphabet_EncodeAlphabet:
  assumes "bin \<noteq> []"
  shows "DecodeAlphabet (EncodeAlphabet bin) = Inr bin"
proof -
  define z where "z = length (takeWhile (\<lambda>b. b = 0) bin)"
  define rest where "rest = dropWhile (\<lambda>b. b = 0) bin"
  define ds where "ds = digits58 (bytes_value bin) []"
  define A where "A = (\<lambda>d. BTCAlphabet ! d)"
  have bin: "bin = replicate z 0 @ rest"
    using takeWhile_dropWhile_id [of "\<lambda>b. b = 0" bin] takeWhile_zero [of 0 bin]
    by (simp add: z_def rest_def)
  have rest: "rest = [] \<or> hd rest \<noteq> 0"
    using hd_dropWhile [of "\<lambda>b. b = 0" bin] by (auto simp: rest_def)
  have N: "bytes_value bin = bytes_value rest"
    using bytes_value_zeros [of z rest] bin by simp
  have bound: "\<forall>d \<in> set ds. d < 58"
    unfolding ds_def by (rule digits58_bound) simp
  have ds: "ds = [] \<or> hd ds \<noteq> 0"
  proof (cases "bytes_value bin = 0")
    case True
    then show ?thesis by (simp add: ds_def)
  next
    case False
    from digits58_hd [OF False, of "[]"] show ?thesis by (auto simp: ds_def)
  qed
  have enc: "EncodeAlphabet bin = replicate z (A 0) @ map A ds"
    by (simp add: EncodeAlphabet_def z_def ds_def A_def)
  have enc': "EncodeAlphabet bin = map A (replicate z 0 @ ds)"
    by (simp add: enc)
  have ne: "EncodeAlphabet bin \<noteq> []"
  proof (cases "z = 0")
    case True
    with bin assms rest have "rest \<noteq> []" "hd rest \<noteq> 0" by auto
    then have "bytes_value bin \<noteq> 0" using bytes_value_pos [of rest] N by simp
    from digits58_hd [OF this, of "[]"] have "ds \<noteq> []" by (auto simp: ds_def)
    then show ?thesis by (simp add: enc)
  next
    case False
    then show ?thesis by (simp add: enc)
  qed
  have "\<forall>d \<in> set (replicate z 0 @ ds). d < 58" using bound by auto
  from b58_value_digits [OF this, of 0]
  have "b58_value (EncodeAlphabet bin) 0 = Inr (digits_value 0 (replicate z 0 @ ds))"
    by (simp only: enc' A_def)
  also have "digits_value 0 (replicate z 0 @ ds) = digits_value 0 ds"
    by (rule digits_value_zeros)
  also have "\<dots> = bytes_value bin"
    using digits58_value [of "bytes_value bin" "[]"] by (simp add: ds_def)
  finally have val: "b58_value (EncodeAlphabet bin) 0 = Inr (bytes_value bin)" .
  have "map A ds = [] \<or> hd (map A ds) \<noteq> A 0"
  proof (cases ds)
    case Nil
    then show ?thesis by simp
  next
    case (Cons d ds')
    with ds bound have "d \<noteq> 0" "d < 58" by auto
    then have "A d \<noteq> A 0" using BTCAlphabet_zero [of d] by (simp add: A_def)
    then show ?thesis using Cons by simp
  qed
  then have lead: "takeWhile (\<lambda>c. c = A 0) (EncodeAlphabet bin) = replicate z (A 0)"
    unfolding enc by (rule takeWhile_replicate_append)
  have bytes: "bytes_of (bytes_value bin) [] = rest"
    using bytes_of_bytes_value [OF rest, of "[]"] N by simp
  have "DecodeAlphabet (EncodeAlphabet bin) = Inr (replicate z 0 @ rest)"
    using ne val lead bytes by (simp add: DecodeAlphabet_def A_def)
  then show ?thesis using bin by simp
qed

section \<open>Encoding an identifier and parsing the result\<close>

lemma copy_from_tag: "copy_from (a # b # replicate (length raw) 0) 2 raw = Inr (a # b # raw)"
  by (simp add: copy_from_def Let_def)

lemma replicate_2: "replicate (2 + n) c = c # c # replicate n c"
  by (simp add: numeral_2_eq_2)

lemma String_Ed25519:
  assumes "Type pub = Ed25519" and "Raw pub = Inr raw"
  shows "String (DIDKey pub) = Inr (''did:key:z'' @ EncodeAlphabet (0xed # 0x01 # raw))"
  using assms
  by (simp add: String_def MulticodecType_def UvarintSize_Ed25519 replicate_2
      PutUvarint_Ed25519 copy_from_tag String_of_encoded_def mb_Encode_Base58BTC_def
      KeyPrefix_def)

lemma String_RSA:
  assumes "Type pub = RSA" and "Raw pub = Inr raw"
  shows "String (DIDKey pub) = Inr (''did:key:z'' @ EncodeAlphabet (0x85 # 0x24 # raw))"
  using assms
  by (simp add: String_def MulticodecType_def UvarintSize_RSA replicate_2
      PutUvarint_RSA copy_from_tag String_of_encoded_def mb_Encode_Base58BTC_def
      KeyPrefix_def)

lemma String_Secp256k1:
  assumes "Type pub = Secp256k1" and "Raw pub = Inr raw"
  shows "String (DIDKey pub) = Inr (''did:key:z'' @ EncodeAlphabet (0x86 # 0x24 # raw))"
  using assms
  by (simp add: String_def MulticodecType_def UvarintSize_Secp256k1 replicate_2
      PutUvarint_Secp256k1 copy_from_tag String_of_encoded_def mb_Encode_Base58BTC_def
      KeyPrefix_def)

lemma Parse_prefixed: "Parse x (''did:key:'' @ text) = Parse_multibase x text"
  by (simp add: Parse_def HasPrefix_def TrimPrefix_def KeyPrefix_def)

lemma Parse_encoded:
  assumes "data \<noteq> []"
  shows "Parse x (''did:key:z'' @ EncodeAlphabet data) =
     (case FromUvarint data of
        Inl err \<Rightarrow> Inl (ErrVarint err)
      | Inr (keyType, n) \<Rightarrow> Parse_switch x keyType data n)"
proof -
  have "mb_Decode x (CHR ''z'' # EncodeAlphabet data) = Inr (Base58BTC, data)"
    by (simp add: mb_Decode_def DecodeAlphabet_EncodeAlphabet [OF assms])
  then show ?thesis
    using Parse_prefixed [of x "CHR ''z'' # EncodeAlphabet data"]
    by (simp add: Parse_multibase_def)
qed

lemma Parse_String_Ed25519:
  assumes "Type pub = Ed25519" and "Raw pub = Inr raw"
  shows "Parse_String x (DIDKey pub) =
     Parse_switch x MulticodecKindEd25519PubKey (0xed # 0x01 # raw) 2"
  using Parse_encoded [of "0xed # 0x01 # raw" x]
  by (simp add: Parse_String_def String_Ed25519 [OF assms] FromUvarint_Ed25519)

lemma Parse_String_RSA:
  assumes "Type pub = RSA" and "Raw pub = Inr raw"
  shows "Parse_String x (DIDKey pub) =
     Parse_switch x MulticodecKindRSAPubKey (0x85 # 0x24 # raw) 2"
  using Parse_encoded [of "0x85 # 0x24 # raw" x]
  by (simp add: Parse_String_def String_RSA [OF assms] FromUvarint_RSA)

lemma Parse_String_Secp256k1:
  assumes "Type pub = Secp256k1" and "Raw pub = Inr raw"
  shows "Parse_String x (DIDKey pub) =
     Parse_switch x MulticodecKindSecp256k1PubKey (0x86 # 0x24 # raw) 2"
  using Parse_encoded [of "0x86 # 0x24 # raw" x]
  by (simp add: Parse_String_def String_Secp256k1 [OF assms] FromUvarint_Secp256k1)

lemma drop_2: "drop 2 (a # b # raw) = raw"
  by (simp add: numeral_2_eq_2)

section \<open>The stages of Parse\<close>

lemma Parse_switch_type:
  assumes "Parse_switch x t data n = Inr did"
  shows "algorithmOf t = Some (Type (PubKey_of did))"
  using assms
  by (auto simp: Parse_switch_def algorithmOf_def MulticodecKindRSAPubKey_def
      MulticodecKindEd25519PubKey_def MulticodecKindSecp256k1PubKey_def
      UnmarshalRsaPublicKey_def UnmarshalEd25519PublicKey_def UnmarshalSecp256k1PublicKey_def
      Let_def split: if_splits sum.splits list.splits)

lemma FromUvarint_nonempty: "FromUvarint data = Inr r \<Longrightarrow> data \<noteq> []"
  by (auto simp: FromUvarint_def)


lemma NewKeyDID_type:
  assumes "NewKeyDID pub = Inr did"
  shows "did = DIDKey pub \<and> Type pub \<in> {Ed25519, RSA, Secp256k1}"
  using assms by (cases "Type pub") (auto simp: NewKeyDID_def)

lemma Parse_type:
  assumes "Parse x s = Inr did"
  shows "Type (PubKey_of did) \<in> {Ed25519, RSA, Secp256k1}"
proof -
  from assms obtain t data n where "Parse_switch x t data n = Inr did"
    by (auto simp: Parse_def Parse_multibase_def split: if_splits sum.splits prod.splits)
  from Parse_switch_type [OF this] show ?thesis
    by (auto simp: algorithmOf_def split: if_splits)
qed






lemma Parse_switch_RSA:
  "Parse_switch x MulticodecKindRSAPubKey (a # b # raw) 2 =
     (case UnmarshalRsaPublicKey x raw of
        Inl err \<Rightarrow> Inl (ErrUnmarshal err)
      | Inr pub \<Rightarrow> Inr (DIDKey pub))"
  by (simp add: Parse_switch_def drop_2)

lemma Parse_switch_Ed25519:
  "Parse_switch x MulticodecKindEd25519PubKey (a # b # raw) 2 =
     (case UnmarshalEd25519PublicKey raw of
        Inl err \<Rightarrow> Inl (ErrUnmarshal err)
      | Inr pub \<Rightarrow> Inr (DIDKey pub))"
  by (simp add: Parse_switch_def drop_2 MulticodecKindRSAPubKey_def
      MulticodecKindEd25519PubKey_def)

lemma Parse_switch_Secp256k1:
  "Parse_switch x MulticodecKindSecp256k1PubKey (a # b # raw) 2 =
     (if length raw \<noteq> 33 \<and> length raw \<noteq> 65
      then Inl (ErrInvalidSecp256k1Length (length raw))
      else case UnmarshalSecp256k1PublicKey x raw of
             Inl err \<Rightarrow> Inl (ErrUnmarshalSecp256k1 err)
           | Inr pub \<Rightarrow> Inr (DIDKey pub))"
  by (simp add: Parse_switch_def drop_2 Let_def MulticodecKindRSAPubKey_def
      MulticodecKindEd25519PubKey_def MulticodecKindSecp256k1PubKey_def)

section \<open>The claims\<close>

text \<open>
  C1 (as amended): for every identifier whose algorithm is Ed25519, RSA or Secp256k1,
  whose raw key bytes satisfy the shape rule of that algorithm, and whose raw key bytes
  the library's unmarshal function for that algorithm accepts and gives back unchanged
  as the raw bytes of the key it builds, parsing the encoded string succeeds and yields
  the same identifier. For Ed25519 the shape rule alone is enough.
\<close>

theorem encode_decode_round_trip:
  "(Type pub \<in> {Ed25519, RSA, Secp256k1} \<and> Raw pub = Inr raw
      \<and> shape_rule x (Type pub) raw \<and> unmarshals_to_itself x (Type pub) raw \<longrightarrow>
      Parse_String x (DIDKey pub) = Inr (DIDKey pub))
   \<and> (Type pub = Ed25519 \<and> Raw pub = Inr raw \<and> shape_rule x (Type pub) raw \<longrightarrow>
      Parse_String x (DIDKey pub) = Inr (DIDKey pub))"
proof -
  have pub: "Type pub = a \<Longrightarrow> Raw pub = Inr raw \<Longrightarrow> \<lparr>Type = a, Raw = Inr raw\<rparr> = pub" for a
    by (cases pub) simp
  have ed: "Parse_String x (DIDKey pub) = Inr (DIDKey pub)"
    if "Type pub = Ed25519" "Raw pub = Inr raw" "shape_rule x (Type pub) raw"
  proof -
    from that have "length raw = 32" by (simp add: shape_rule_def)
    then show ?thesis
      using pub [OF that(1,2)]
      by (simp add: Parse_String_Ed25519 [OF that(1,2)] Parse_switch_Ed25519
          UnmarshalEd25519PublicKey_def)
  qed
  have rsa: "Parse_String x (DIDKey pub) = Inr (DIDKey pub)"
    if "Type pub = RSA" "Raw pub = Inr raw" "unmarshals_to_itself x (Type pub) raw"
    using that pub [OF that(1,2)]
    by (simp add: Parse_String_RSA [OF that(1,2)] Parse_switch_RSA unmarshals_to_itself_def)
  have secp: "Parse_String x (DIDKey pub) = Inr (DIDKey pub)"
    if "Type pub = Secp256k1" "Raw pub = Inr raw" "shape_rule x (Type pub) raw"
      "unmarshals_to_itself x (Type pub) raw"
    using that pub [OF that(1,2)]
    by (auto simp: Parse_String_Secp256k1 [OF that(1,2)] Parse_switch_Secp256k1
        unmarshals_to_itself_def shape_rule_def)
  from ed rsa secp show ?thesis by auto
qed

theorem encode_decode_round_trip_witness:
  "Type \<lparr>Type = Ed25519, Raw = Inr (replicate 32 0)\<rparr> \<in> {Ed25519, RSA, Secp256k1}
   \<and> shape_rule sample_ext Ed25519 (replicate 32 0)
   \<and> unmarshals_to_itself sample_ext Ed25519 (replicate 32 0)
   \<and> Parse_String sample_ext (DIDKey \<lparr>Type = Ed25519, Raw = Inr (replicate 32 0)\<rparr>)
       = Inr (DIDKey \<lparr>Type = Ed25519, Raw = Inr (replicate 32 0)\<rparr>)
   \<and> shape_rule sample_ext Secp256k1 secp256k1_G_compressed
   \<and> unmarshals_to_itself sample_ext Secp256k1 secp256k1_G_compressed
   \<and> Parse_String sample_ext (DIDKey \<lparr>Type = Secp256k1, Raw = Inr secp256k1_G_compressed\<rparr>)
       = Inr (DIDKey \<lparr>Type = Secp256k1, Raw = Inr secp256k1_G_compressed\<rparr>)"
proof -
  have a: "shape_rule sample_ext Ed25519 (replicate 32 0)"
    by (simp add: shape_rule_def)
  have b: "unmarshals_to_itself sample_ext Ed25519 (replicate 32 0)"
    by (simp add: unmarshals_to_itself_def UnmarshalEd25519PublicKey_def)
  have c: "shape_rule sample_ext Secp256k1 secp256k1_G_compressed"
    by (simp add: shape_rule_def secp256k1_G_compressed_def)
  have d: "unmarshals_to_itself sample_ext Secp256k1 secp256k1_G_compressed"
    by (simp add: unmarshals_to_itself_def UnmarshalSecp256k1PublicKey_def sample_ext_def
        sample_secp256k1_unmarshal_def secp256k1_G_compressed_def)
  from a b c d
    encode_decode_round_trip [of "\<lparr>Type = Ed25519, Raw = Inr (replicate 32 0)\<rparr>" "replicate 32 0"
      sample_ext]
    encode_decode_round_trip [of "\<lparr>Type = Secp256k1, Raw = Inr secp256k1_G_compressed\<rparr>"
      secp256k1_G_compressed sample_ext]
  show ?thesis by simp
qed

theorem encode_decode_round_trip_counterexample:
  "shape_rule sample_ext Secp256k1 (0 # replicate 32 0)
   \<and> Parse_String sample_ext (DIDKey \<lparr>Type = Secp256k1, Raw = Inr (0 # replicate 32 0)\<rparr>)
       = Inl (ErrUnmarshalSecp256k1 (LibError ''invalid public key: unsupported format''))
   \<and> shape_rule sample_ext Secp256k1 secp256k1_G_uncompressed
   \<and> Parse_String sample_ext (DIDKey \<lparr>Type = Secp256k1, Raw = Inr secp256k1_G_uncompressed\<rparr>)
       = Inr (DIDKey \<lparr>Type = Secp256k1, Raw = Inr secp256k1_G_compressed\<rparr>)
   \<and> secp256k1_G_compressed \<noteq> secp256k1_G_uncompressed"
proof -
  have a: "shape_rule sample_ext Secp256k1 (0 # replicate 32 0)"
    by (simp add: shape_rule_def)
  have b: "Parse_String sample_ext (DIDKey \<lparr>Type = Secp256k1, Raw = Inr (0 # replicate 32 0)\<rparr>)
       = Inl (ErrUnmarshalSecp256k1 (LibError ''invalid public key: unsupported format''))"
    by (simp add: Parse_String_Secp256k1 Parse_switch_Secp256k1 UnmarshalSecp256k1PublicKey_def
        sample_ext_def sample_secp256k1_unmarshal_def)
  have c: "shape_rule sample_ext Secp256k1 secp256k1_G_uncompressed"
    by (simp add: shape_rule_def secp256k1_G_uncompressed_def)
  have l: "length secp256k1_G_uncompressed = 65"
    by (simp add: secp256k1_G_uncompressed_def)
  have u: "sample_secp256k1_unmarshal secp256k1_G_uncompressed = Inr secp256k1_G_compressed"
    by (simp add: sample_secp256k1_unmarshal_def secp256k1_G_uncompressed_def
        secp256k1_G_compressed_def)
  have d: "Parse_String sample_ext (DIDKey \<lparr>Type = Secp256k1, Raw = Inr secp256k1_G_uncompressed\<rparr>)
       = Inr (DIDKey \<lparr>Type = Secp256k1, Raw = Inr secp256k1_G_compressed\<rparr>)"
    by (simp add: Parse_String_Secp256k1 Parse_switch_Secp256k1 UnmarshalSecp256k1PublicKey_def
        sample_ext_def l u)
  have e: "secp256k1_G_compressed \<noteq> secp256k1_G_uncompressed"
    by (simp add: secp256k1_G_uncompressed_def secp256k1_G_compressed_def)
  from a b c d e show ?thesis by simp
qed







text \<open>
  C4: for an input that carries the prefix and whose text decodes under base-58-BTC to
  bytes whose leading varint is a tag other than 0xed, 0x1205 and 0x1206, \<open>Parse\<close> fails
  with the unrecognized-multicodec error (on the first byte of the envelope); no
  identifier is returned.
\<close>

theorem unknown_tag_rejected:
  assumes "HasPrefix s KeyPrefix"
    and "mb_Decode x (TrimPrefix s (KeyPrefix @ '':'')) = Inr (Base58BTC, data)"
    and "FromUvarint data = Inr (t, n)"
    and "t \<notin> {0xed, 0x1205, 0x1206}"
  shows "\<exists>b rest. data = b # rest \<and> Parse x s = Inl (ErrUnrecognizedMulticodec b)"
proof -
  from FromUvarint_nonempty [OF assms(3)] obtain b rest where d: "data = b # rest"
    by (cases data) auto
  have "Parse x s = Parse_switch x t data n"
    using assms(1-3) by (simp add: Parse_def Parse_multibase_def)
  also have "\<dots> = Inl (ErrUnrecognizedMulticodec b)"
    using assms(4) d
    by (simp add: Parse_switch_def MulticodecKindRSAPubKey_def
        MulticodecKindEd25519PubKey_def MulticodecKindSecp256k1PubKey_def)
  finally show ?thesis using d by blast
qed

theorem unknown_tag_rejected_witness:
  "HasPrefix ''did:key:ztdJZ'' KeyPrefix
   \<and> mb_Decode sample_ext (TrimPrefix ''did:key:ztdJZ'' (KeyPrefix @ '':''))
       = Inr (Base58BTC, [0x99, 0xb3, 0x02])
   \<and> FromUvarint [0x99, 0xb3, 0x02] = Inr (0x9999, 3)
   \<and> (0x9999 :: uint64) \<notin> {0xed, 0x1205, 0x1206}
   \<and> Parse sample_ext ''did:key:ztdJZ'' = Inl (ErrUnrecognizedMulticodec 0x99)"
proof -
  have a: "HasPrefix ''did:key:ztdJZ'' KeyPrefix"
    by (simp add: HasPrefix_def KeyPrefix_def)
  have b: "mb_Decode sample_ext (TrimPrefix ''did:key:ztdJZ'' (KeyPrefix @ '':''))
       = Inr (Base58BTC, [0x99, 0xb3, 0x02])"
    by (simp add: TrimPrefix_def HasPrefix_def KeyPrefix_def mb_Decode_def DecodeAlphabet_def
        BTCAlphabet_def bytes_of.simps)
  have c: "FromUvarint [0x99, 0xb3, 0x02] = Inr (0x9999, 3)"
    by (simp add: FromUvarint_def MaxLenUvarint63_def)
  have d: "(0x9999 :: uint64) \<notin> {0xed, 0x1205, 0x1206}"
    by simp
  from unknown_tag_rejected [OF a b c d] a b c d show ?thesis by simp
qed

text \<open>
  C5: for an identifier whose algorithm is Secp256k1 and whose raw bytes are \<open>bytes\<close>,
  \<open>VerifyKey\<close> succeeds, returning the bytes, exactly when their length is 33 or 65, and
  fails with the invalid-length error for every other length. On the decode path, the
  bytes that follow a Secp256k1 tag pass the same gate: any other length is the same
  error, and only a length of 33 or 65 reaches the library's unmarshal function.
\<close>

theorem Secp256k1_length_gate:
  assumes "Type (PubKey_of did) = Secp256k1" and "Raw (PubKey_of did) = Inr bytes"
  shows "VerifyKey x did =
           (if length bytes = 33 \<or> length bytes = 65 then Inr (RawBytes bytes)
            else Inl (ErrInvalidSecp256k1Length (length bytes)))
       \<and> Parse x (''did:key:z'' @ EncodeAlphabet (0x86 # 0x24 # bytes)) =
           (if length bytes = 33 \<or> length bytes = 65
            then (case UnmarshalSecp256k1PublicKey x bytes of
                    Inl err \<Rightarrow> Inl (ErrUnmarshalSecp256k1 err)
                  | Inr pub \<Rightarrow> Inr (DIDKey pub))
            else Inl (ErrInvalidSecp256k1Length (length bytes)))"
proof
  show "VerifyKey x did =
           (if length bytes = 33 \<or> length bytes = 65 then Inr (RawBytes bytes)
            else Inl (ErrInvalidSecp256k1Length (length bytes)))"
    using assms by (auto simp: VerifyKey_def)
next
  have "Parse x (''did:key:z'' @ EncodeAlphabet (0x86 # 0x24 # bytes)) =
        Parse_switch x MulticodecKindSecp256k1PubKey (0x86 # 0x24 # bytes) 2"
    using Parse_encoded [of "0x86 # 0x24 # bytes" x] by (simp add: FromUvarint_Secp256k1)
  then show "Parse x (''did:key:z'' @ EncodeAlphabet (0x86 # 0x24 # bytes)) =
           (if length bytes = 33 \<or> length bytes = 65
            then (case UnmarshalSecp256k1PublicKey x bytes of
                    Inl err \<Rightarrow> Inl (ErrUnmarshalSecp256k1 err)
                  | Inr pub \<Rightarrow> Inr (DIDKey pub))
            else Inl (ErrInvalidSecp256k1Length (length bytes)))"
    by (simp add: Parse_switch_def drop_2 Let_def MulticodecKindSecp256k1PubKey_def
        MulticodecKindRSAPubKey_def MulticodecKindEd25519PubKey_def)
qed

theorem Secp256k1_length_gate_witness:
  "Type (PubKey_of (DIDKey \<lparr>Type = Secp256k1, Raw = Inr [1, 2, 3]\<rparr>)) = Secp256k1
   \<and> Raw (PubKey_of (DIDKey \<lparr>Type = Secp256k1, Raw = Inr [1, 2, 3]\<rparr>)) = Inr [1, 2, 3]
   \<and> VerifyKey sample_ext (DIDKey \<lparr>Type = Secp256k1, Raw = Inr [1, 2, 3]\<rparr>)
       = Inl (ErrInvalidSecp256k1Length 3)
   \<and> Parse sample_ext (''did:key:z'' @ EncodeAlphabet [0x86, 0x24, 1, 2, 3])
       = Inl (ErrInvalidSecp256k1Length 3)"
  using Secp256k1_length_gate
    [of "DIDKey \<lparr>Type = Secp256k1, Raw = Inr [1, 2, 3]\<rparr>" "[1, 2, 3]" sample_ext]
  by simp






text \<open>
  C8: for an identifier whose algorithm is Ed25519 and whose raw bytes are \<open>raw\<close>, of
  any length, \<open>VerifyKey\<close> succeeds and returns \<open>raw\<close> as the Ed25519 public key; it
  makes no length check.
\<close>

theorem VerifyKey_Ed25519_any_length:
  assumes "Type (PubKey_of did) = Ed25519" and "Raw (PubKey_of did) = Inr raw"
  shows "VerifyKey x did = Inr (Ed25519PublicKey raw)"
  using assms by (simp add: VerifyKey_def)

theorem VerifyKey_Ed25519_any_length_witness:
  "Type (PubKey_of (DIDKey \<lparr>Type = Ed25519, Raw = Inr [1, 2, 3]\<rparr>)) = Ed25519
   \<and> Raw (PubKey_of (DIDKey \<lparr>Type = Ed25519, Raw = Inr [1, 2, 3]\<rparr>)) = Inr [1, 2, 3]
   \<and> VerifyKey sample_ext (DIDKey \<lparr>Type = Ed25519, Raw = Inr [1, 2, 3]\<rparr>)
       = Inr (Ed25519PublicKey [1, 2, 3])"
  using VerifyKey_Ed25519_any_length
    [of "DIDKey \<lparr>Type = Ed25519, Raw = Inr [1, 2, 3]\<rparr>" "[1, 2, 3]" sample_ext]
  by simp



text \<open>
  C10: an identifier returned by \<open>NewKeyDID\<close> or by \<open>Parse\<close> has one of the three
  algorithms Ed25519, RSA, Secp256k1; and for an identifier with one of the three,
  \<open>MulticodecType\<close> does not panic and \<open>VerifyKey\<close> does not return the
  unrecognized-key-type error.
\<close>

theorem supported_algorithms_only:
  "(NewKeyDID pub = Inr did \<longrightarrow> Type (PubKey_of did) \<in> {Ed25519, RSA, Secp256k1})
   \<and> (Parse x s = Inr did \<longrightarrow> Type (PubKey_of did) \<in> {Ed25519, RSA, Secp256k1})
   \<and> (Type (PubKey_of did) \<in> {Ed25519, RSA, Secp256k1} \<longrightarrow>
        (\<forall>p. MulticodecType did \<noteq> Inl p)
        \<and> (\<forall>t. VerifyKey x did \<noteq> Inl (ErrUnrecognizedPublicKeyType t)))"
proof -
  have a: "NewKeyDID pub = Inr did \<longrightarrow> Type (PubKey_of did) \<in> {Ed25519, RSA, Secp256k1}"
    using NewKeyDID_type [of pub did] by auto
  have b: "Parse x s = Inr did \<longrightarrow> Type (PubKey_of did) \<in> {Ed25519, RSA, Secp256k1}"
    using Parse_type [of x s did] by blast
  have c: "Type (PubKey_of did) \<in> {Ed25519, RSA, Secp256k1} \<longrightarrow>
        (\<forall>p. MulticodecType did \<noteq> Inl p)
        \<and> (\<forall>t. VerifyKey x did \<noteq> Inl (ErrUnrecognizedPublicKeyType t))"
    by (auto simp: MulticodecType_def VerifyKey_def split: sum.splits pkix_key.splits)
  from a b c show ?thesis by blast
qed

theorem supported_algorithms_only_witness:
  "NewKeyDID \<lparr>Type = Secp256k1, Raw = Inr [2, 7]\<rparr>
     = Inr (DIDKey \<lparr>Type = Secp256k1, Raw = Inr [2, 7]\<rparr>)
   \<and> Parse sample_ext (''did:key:z'' @ EncodeAlphabet (0xed # 0x01 # replicate 32 7))
     = Inr (DIDKey \<lparr>Type = Ed25519, Raw = Inr (replicate 32 7)\<rparr>)
   \<and> Type (PubKey_of (DIDKey \<lparr>Type = Secp256k1, Raw = Inr [2, 7]\<rparr>)) \<in> {Ed25519, RSA, Secp256k1}
   \<and> Type (PubKey_of (DIDKey \<lparr>Type = Ed25519, Raw = Inr (replicate 32 7)\<rparr>)) \<in> {Ed25519, RSA, Secp256k1}
   \<and> MulticodecType (DIDKey \<lparr>Type = Secp256k1, Raw = Inr [2, 7]\<rparr>) \<noteq> Inl PanicUnexpectedCryptoType
   \<and> VerifyKey sample_ext (DIDKey \<lparr>Type = Secp256k1, Raw = Inr [2, 7]\<rparr>)
       \<noteq> Inl (ErrUnrecognizedPublicKeyType Secp256k1)"
proof -
  have n: "NewKeyDID \<lparr>Type = Secp256k1, Raw = Inr [2, 7]\<rparr>
     = Inr (DIDKey \<lparr>Type = Secp256k1, Raw = Inr [2, 7]\<rparr>)"
    by (simp add: NewKeyDID_def)
  have p: "Parse sample_ext (''did:key:z'' @ EncodeAlphabet (0xed # 0x01 # replicate 32 7))
     = Inr (DIDKey \<lparr>Type = Ed25519, Raw = Inr (replicate 32 7)\<rparr>)"
    using Parse_encoded [of "0xed # 0x01 # replicate 32 7" sample_ext]
    by (simp add: FromUvarint_Ed25519 Parse_switch_def drop_2 UnmarshalEd25519PublicKey_def
        MulticodecKindRSAPubKey_def MulticodecKindEd25519PubKey_def)
  from n p
    supported_algorithms_only [of "\<lparr>Type = Secp256k1, Raw = Inr [2, 7]\<rparr>"
      "DIDKey \<lparr>Type = Secp256k1, Raw = Inr [2, 7]\<rparr>" sample_ext]
    supported_algorithms_only [of _
      "DIDKey \<lparr>Type = Ed25519, Raw = Inr (replicate 32 7)\<rparr>" sample_ext
      "''did:key:z'' @ EncodeAlphabet (0xed # 0x01 # replicate 32 7)"]
  show ?thesis by simp
qed

end
